theory Spec2Isabelle
  imports Main
begin

section \<open>Python strings\<close>

text \<open>
  A Python \<open>str\<close> is a sequence of Unicode code points and \<open>len\<close> counts code
  points, so a string is modelled as a list of code points (natural numbers).
  \<open>str\<close> turns an ASCII literal into such a list.
\<close>

type_synonym pychar = nat
type_synonym pystr = "pychar list"

definition str :: "string \<Rightarrow> pystr" where
  "str s = map of_char s"

text \<open>
  \<open>str.isspace\<close> for one code point: the code points CPython classifies as
  whitespace (U+0009..U+000D, U+001C..U+0020, U+0085, U+00A0, U+1680,
  U+2000..U+200A, U+2028, U+2029, U+202F, U+205F, U+3000).
\<close>

definition isspace :: "pychar \<Rightarrow> bool" where
  "isspace c \<longleftrightarrow>
     (9 \<le> c \<and> c \<le> 13) \<or> (28 \<le> c \<and> c \<le> 32) \<or> c = 133 \<or> c = 160 \<or> c = 5760 \<or>
     (8192 \<le> c \<and> c \<le> 8202) \<or> c = 8232 \<or> c = 8233 \<or> c = 8239 \<or> c = 8287 \<or>
     c = 12288"

text \<open>\<open>text.strip()\<close>: leading and trailing whitespace removed.\<close>

definition lstrip :: "pystr \<Rightarrow> pystr" where
  "lstrip s = dropWhile isspace s"

definition rstrip :: "pystr \<Rightarrow> pystr" where
  "rstrip s = rev (dropWhile isspace (rev s))"

definition strip :: "pystr \<Rightarrow> pystr" where
  "strip s = rstrip (lstrip s)"

text \<open>
  \<open>text.split()\<close> with no separator: the maximal runs of non-whitespace code
  points, in order. \<open>split_from cur s\<close> scans \<open>s\<close> with the token \<open>cur\<close> under
  construction.
\<close>

fun split_from :: "pystr \<Rightarrow> pystr \<Rightarrow> pystr list" where
  "split_from cur [] = (if cur = [] then [] else [cur])"
| "split_from cur (c # cs) =
     (if isspace c then (if cur = [] then split_from [] cs else cur # split_from [] cs)
      else split_from (cur @ [c]) cs)"

definition split :: "pystr \<Rightarrow> pystr list" where
  "split s = split_from [] s"

text \<open>\<open>sep.join(xs)\<close>.\<close>

fun join :: "pystr \<Rightarrow> pystr list \<Rightarrow> pystr" where
  "join sep [] = []"
| "join sep [x] = x"
| "join sep (x # y # ys) = x @ sep @ join sep (y # ys)"

section \<open>The text wrapper\<close>

text \<open>
  \<^verbatim>\<open>
  def split_text(text, max_width):
      words = text.split()
      lines, current = [], ""
      for word in words:
          test = current + (" " if current else "") + word
          if len(test) * 5 > max_width:
              lines.append(current)
              current = word
          else:
              current = test
      if current:
          lines.append(current)
      return lines
  \<close>
  \<open>split_text_loop\<close> is the \<open>for\<close> loop over the remaining words, with the
  variables \<open>lines\<close> and \<open>current\<close> as arguments.
\<close>

fun split_text_loop :: "int \<Rightarrow> pystr list \<Rightarrow> pystr list \<Rightarrow> pystr \<Rightarrow> pystr list \<times> pystr" where
  "split_text_loop max_width [] lines current = (lines, current)"
| "split_text_loop max_width (word # words) lines current =
     (let test = current @ (if current \<noteq> [] then str '' '' else str '''') @ word
      in if int (length test) * 5 > max_width
         then split_text_loop max_width words (lines @ [current]) word
         else split_text_loop max_width words lines test)"

text \<open>The statements after the loop: a non-empty \<open>current\<close> is the last line.\<close>

definition flush :: "pystr list \<times> pystr \<Rightarrow> pystr list" where
  "flush st = (case st of (lines, current) \<Rightarrow>
     if current \<noteq> [] then lines @ [current] else lines)"

definition split_text :: "pystr \<Rightarrow> int \<Rightarrow> pystr list" where
  "split_text text max_width =
     (let words = split text
      in flush (split_text_loop max_width words [] []))"

section \<open>The canvas\<close>

text \<open>
  The ReportLab canvas is an output sink: the model records the calls made on
  it, in order. A colour \<open>colors.Color(r, g, b)\<close> is kept in hundredths, so
  \<open>Color(0.35, 0.35, 0.35)\<close> is \<open>Color 35 35 35\<close>.
\<close>

datatype color = Color nat nat nat

datatype canvas_op =
    SetFont string nat                        \<comment> \<open>\<open>c.setFont(name, size)\<close>\<close>
  | SetFillColor color                        \<comment> \<open>\<open>c.setFillColor(colour)\<close>\<close>
  | DrawString int int pystr                  \<comment> \<open>\<open>c.drawString(x, y, text)\<close>\<close>
  | Rect int int int int                      \<comment> \<open>\<open>c.rect(x, y, width, height, fill=1, stroke=0)\<close>\<close>
  | RenderGradient int int int int color color
      \<comment> \<open>\<open>renderPDF.draw(d, c, x, y)\<close> for a drawing of \<open>width\<close> by \<open>height\<close> holding
          one rectangle filled with a two-stop linear gradient\<close>
  | Save                                      \<comment> \<open>\<open>c.save()\<close>\<close>

type_synonym canvas = "canvas_op list"

section \<open>The divider\<close>

text \<open>
  \<^verbatim>\<open>
  def draw_gradient_line(c, y, width=500, height=3):
      if GRADIENT_SUPPORTED:
          d = Drawing(width, height)
          gradient = LinearGradient(0, 0, width, 0,
              [(0, colors.Color(0.5, 0.95, 0.75)), (1, colors.Color(0.2, 0.6, 1.0))])
          rect = Rect(0, 0, width, height, fillColor=gradient, strokeWidth=0)
          d.add(rect)
          renderPDF.draw(d, c, 50, y - height)
      else:
          c.setFillColor(colors.Color(0.3, 0.8, 0.9))
          c.rect(50, y - height, width, height, fill=1, stroke=0)
      return height + 2
  \<close>
  The module-level flag \<open>GRADIENT_SUPPORTED\<close> is the first argument. The
  function returns the canvas after its calls and the space consumed.
\<close>

definition draw_gradient_line :: "bool \<Rightarrow> canvas \<Rightarrow> int \<Rightarrow> int \<Rightarrow> int \<Rightarrow> canvas \<times> int" where
  "draw_gradient_line GRADIENT_SUPPORTED c y width height =
     (let c' =
        (if GRADIENT_SUPPORTED
         then c @ [RenderGradient 50 (y - height) width height (Color 50 95 75) (Color 20 60 100)]
         else c @ [SetFillColor (Color 30 80 90), Rect 50 (y - height) width height])
      in (c', height + 2))"

section \<open>The layout engine\<close>

text \<open>
  A resume is the decoded JSON document. The entries of \<open>personal\<close>,
  \<open>experience\<close> and \<open>education\<close> are dictionaries from field names to strings;
  a field of the resume that is absent is \<open>None\<close>.
\<close>

type_synonym pydict = "string \<rightharpoonup> pystr"

record resume =
  r_personal :: "pydict option"
  r_summary :: "pystr option"
  r_skills :: "pystr list option"
  r_experience :: "pydict list option"
  r_education :: "pydict list option"

text \<open>\<open>d.get(key, default)\<close>, and the truth value of \<open>d.get(key)\<close>.\<close>

definition get :: "pydict \<Rightarrow> string \<Rightarrow> pystr \<Rightarrow> pystr" where
  "get d key dflt = (case d key of None \<Rightarrow> dflt | Some v \<Rightarrow> v)"

definition has :: "pydict \<Rightarrow> string \<Rightarrow> bool" where
  "has d key = (case d key of None \<Rightarrow> False | Some v \<Rightarrow> v \<noteq> [])"

definition get_default :: "'a \<Rightarrow> 'a option \<Rightarrow> 'a" where
  "get_default dflt v = (case v of None \<Rightarrow> dflt | Some x \<Rightarrow> x)"

text \<open>
  The state of one call of \<open>generate_pdf\<close>: the canvas \<open>c\<close> and the cursor \<open>y\<close>.
  The cursor starts at 752.0 and only whole numbers are subtracted from it, so
  it is an integer in the model.
  \<open>ylog\<close> is a history variable, not a variable of the source: it holds the
  value given to \<open>y\<close> by its initialisation and by every later assignment, in order.
\<close>

record layout =
  canvas :: canvas
  cur_y :: int
  ylog :: "int list"

text \<open>A call on the canvas, and the statement \<open>y -= d\<close>.\<close>

definition emit :: "canvas_op \<Rightarrow> layout \<Rightarrow> layout" where
  "emit op s = s\<lparr>canvas := canvas s @ [op]\<rparr>"

definition advance :: "int \<Rightarrow> layout \<Rightarrow> layout" where
  "advance d s = s\<lparr>cur_y := cur_y s - d, ylog := ylog s @ [cur_y s - d]\<rparr>"

text \<open>The height of ReportLab's \<open>letter\<close> page, 11 inches of 72 points.\<close>

definition letter_height :: int where
  "letter_height = 792"

definition heading_color :: color where
  "heading_color = Color 0 0 0"

definition body_color :: color where
  "body_color = Color 20 20 20"

definition contact_color :: color where
  "contact_color = Color 35 35 35"

text \<open>
  \<^verbatim>\<open>
  def add_section_header(title):
      nonlocal y
      c.setFont("Helvetica-Bold", 14)
      c.setFillColor(heading_color)
      c.drawString(50, y, title)
      y -= 4
      y -= draw_gradient_line(c, y)
      y -= 8
  \<close>
\<close>

definition add_section_header :: "bool \<Rightarrow> pystr \<Rightarrow> layout \<Rightarrow> layout" where
  "add_section_header GRADIENT_SUPPORTED title s0 =
     (let s1 = emit (SetFont ''Helvetica-Bold'' 14) s0;
          s2 = emit (SetFillColor heading_color) s1;
          s3 = emit (DrawString 50 (cur_y s2) title) s2;
          s4 = advance 4 s3;
          (c', consumed) = draw_gradient_line GRADIENT_SUPPORTED (canvas s4) (cur_y s4) 500 3;
          s5 = advance consumed (s4\<lparr>canvas := c'\<rparr>)
      in advance 8 s5)"

text \<open>
  The loop \<open>for line in ...: c.drawString(50, y, line); y -= d\<close>, used with
  \<open>d = 14\<close> for the contact lines and \<open>d = 12\<close> for wrapped text.
\<close>

fun draw_lines :: "int \<Rightarrow> pystr list \<Rightarrow> layout \<Rightarrow> layout" where
  "draw_lines d [] s = s"
| "draw_lines d (line # lines) s = draw_lines d lines (advance d (emit (DrawString 50 (cur_y s) line) s))"

text \<open>The name and the contact details (lines 121 to 142 of the source).\<close>

definition draw_name :: "resume \<Rightarrow> layout \<Rightarrow> layout" where
  "draw_name resume s0 =
     (let name = get (get_default Map.empty (r_personal resume)) ''name'' (str ''Resume'');
          s1 = emit (SetFont ''Helvetica-Bold'' 22) s0;
          s2 = emit (SetFillColor heading_color) s1;
          s3 = emit (DrawString 50 (cur_y s2) name) s2
      in advance 28 s3)"

definition contact_lines :: "pydict \<Rightarrow> pystr list" where
  "contact_lines personal =
     (if has personal ''email'' then [str ''Email: '' @ get personal ''email'' []] else []) @
     (if has personal ''phone'' then [str ''Phone: '' @ get personal ''phone'' []] else []) @
     (if has personal ''address'' then [str ''Address: '' @ get personal ''address'' []] else [])"

definition draw_contacts :: "resume \<Rightarrow> layout \<Rightarrow> layout" where
  "draw_contacts resume s0 =
     (let personal = get_default Map.empty (r_personal resume);
          contacts = contact_lines personal;
          s1 = emit (SetFont ''Helvetica'' 10) s0;
          s2 = emit (SetFillColor contact_color) s1;
          s3 = draw_lines 14 contacts s2
      in advance 12 s3)"

text \<open>The summary and the skills sections (lines 154 to 175).\<close>

definition draw_summary :: "bool \<Rightarrow> resume \<Rightarrow> layout \<Rightarrow> layout" where
  "draw_summary GRADIENT_SUPPORTED resume s0 =
     (let summary = get_default [] (r_summary resume)
      in if summary \<noteq> [] then
           (let s1 = add_section_header GRADIENT_SUPPORTED (str ''Summary'') s0;
                s2 = emit (SetFont ''Helvetica'' 10) s1;
                s3 = emit (SetFillColor body_color) s2;
                s4 = draw_lines 12 (split_text summary 500) s3
            in advance 12 s4)
         else s0)"

definition draw_skills :: "bool \<Rightarrow> resume \<Rightarrow> layout \<Rightarrow> layout" where
  "draw_skills GRADIENT_SUPPORTED resume s0 =
     (let skills = get_default [] (r_skills resume)
      in if skills \<noteq> [] then
           (let s1 = add_section_header GRADIENT_SUPPORTED (str ''Skills'') s0;
                s2 = emit (SetFont ''Helvetica'' 10) s1;
                s3 = emit (SetFillColor body_color) s2;
                skill_line = join (str '', '') skills;
                s4 = draw_lines 12 (split_text skill_line 500) s3
            in advance 12 s4)
         else s0)"

text \<open>
  The experience section (lines 177 to 201). The separator of the date line
  is a space, an en dash (U+2013) and a space.
  \<^verbatim>\<open>
  title = f"{exp.get('position','')} at {exp.get('company','')}".strip()
  dates = f"{exp.get('startDate','')} \u2013 {exp.get('endDate','Present')}".strip()
  desc = exp.get("description", "")
  \<close>
\<close>

definition en_dash_sep :: pystr where
  "en_dash_sep = [32, 8211, 32]"

definition exp_title :: "pydict \<Rightarrow> pystr" where
  "exp_title exp = strip (get exp ''position'' (str '''') @ str '' at '' @ get exp ''company'' (str ''''))"

definition exp_dates :: "pydict \<Rightarrow> pystr" where
  "exp_dates exp =
     strip (get exp ''startDate'' (str '''') @ en_dash_sep @ get exp ''endDate'' (str ''Present''))"

text \<open>
  The body of the loop over the entries, shared by both sections: the title,
  the date line and the description have been computed from the entry.
  \<^verbatim>\<open>
  c.setFont("Helvetica-Bold", 12)
  c.setFillColor(body_color)
  c.drawString(50, y, title)
  y -= 14
  if dates:
      c.setFont("Helvetica-Oblique", 8)
      c.drawString(50, y, dates)
      y -= 12
  if desc:
      c.setFont("Helvetica", 10)
      for line in split_text(desc, 500):
          c.drawString(50, y, line)
          y -= 12
  y -= 8
  \<close>
\<close>

definition draw_entry :: "pystr \<Rightarrow> pystr \<Rightarrow> pystr \<Rightarrow> layout \<Rightarrow> layout" where
  "draw_entry title dates desc s0 =
     (let s1 = emit (SetFont ''Helvetica-Bold'' 12) s0;
          s2 = emit (SetFillColor body_color) s1;
          s3 = emit (DrawString 50 (cur_y s2) title) s2;
          s4 = advance 14 s3;
          s5 = (if dates \<noteq> [] then
                  (let t1 = emit (SetFont ''Helvetica-Oblique'' 8) s4;
                       t2 = emit (DrawString 50 (cur_y t1) dates) t1
                   in advance 12 t2)
                else s4);
          s6 = (if desc \<noteq> [] then
                  (let t1 = emit (SetFont ''Helvetica'' 10) s5
                   in draw_lines 12 (split_text desc 500) t1)
                else s5)
      in advance 8 s6)"

definition draw_exp :: "pydict \<Rightarrow> layout \<Rightarrow> layout" where
  "draw_exp exp s = draw_entry (exp_title exp) (exp_dates exp) (get exp ''description'' (str '''')) s"

fun draw_exps :: "pydict list \<Rightarrow> layout \<Rightarrow> layout" where
  "draw_exps [] s = s"
| "draw_exps (exp # exps) s = draw_exps exps (draw_exp exp s)"

definition draw_experience :: "bool \<Rightarrow> resume \<Rightarrow> layout \<Rightarrow> layout" where
  "draw_experience GRADIENT_SUPPORTED resume s0 =
     (let experience = get_default [] (r_experience resume)
      in if experience \<noteq> [] then
           (let s1 = add_section_header GRADIENT_SUPPORTED (str ''Experience'') s0;
                s2 = draw_exps experience s1
            in advance 12 s2)
         else s0)"

text \<open>
  The education section (lines 203 to 225).
  \<^verbatim>\<open>
  degree = f"{edu.get('degree','')} at {edu.get('institution','')}".strip()
  dates = f"{edu.get('startDate','')} \u2013 {edu.get('endDate','')}".strip()
  desc = edu.get("description", "")
  \<close>
\<close>

definition edu_degree :: "pydict \<Rightarrow> pystr" where
  "edu_degree edu = strip (get edu ''degree'' (str '''') @ str '' at '' @ get edu ''institution'' (str ''''))"

definition edu_dates :: "pydict \<Rightarrow> pystr" where
  "edu_dates edu =
     strip (get edu ''startDate'' (str '''') @ en_dash_sep @ get edu ''endDate'' (str ''''))"

definition draw_edu :: "pydict \<Rightarrow> layout \<Rightarrow> layout" where
  "draw_edu edu s = draw_entry (edu_degree edu) (edu_dates edu) (get edu ''description'' (str '''')) s"

fun draw_edus :: "pydict list \<Rightarrow> layout \<Rightarrow> layout" where
  "draw_edus [] s = s"
| "draw_edus (edu # edus) s = draw_edus edus (draw_edu edu s)"

definition draw_education :: "bool \<Rightarrow> resume \<Rightarrow> layout \<Rightarrow> layout" where
  "draw_education GRADIENT_SUPPORTED resume s0 =
     (let education = get_default [] (r_education resume)
      in if education \<noteq> [] then
           (let s1 = add_section_header GRADIENT_SUPPORTED (str ''Education'') s0;
                s2 = draw_edus education s1
            in advance 12 s2)
         else s0)"

text \<open>
  \<open>generate_pdf\<close>: a fresh canvas, \<open>y = height - 40\<close>, the parts in the order of
  the source, and \<open>c.save()\<close>.
\<close>

definition initial_layout :: layout where
  "initial_layout = \<lparr>canvas = [], cur_y = letter_height - 40, ylog = [letter_height - 40]\<rparr>"

definition generate_pdf :: "bool \<Rightarrow> resume \<Rightarrow> layout" where
  "generate_pdf GRADIENT_SUPPORTED resume =
     (let s1 = draw_name resume initial_layout;
          s2 = draw_contacts resume s1;
          s3 = draw_summary GRADIENT_SUPPORTED resume s2;
          s4 = draw_skills GRADIENT_SUPPORTED resume s3;
          s5 = draw_experience GRADIENT_SUPPORTED resume s4;
          s6 = draw_education GRADIENT_SUPPORTED resume s5
      in emit Save s6)"

section \<open>Grammar correction\<close>

text \<open>
  \<open>correct_text\<close> posts the text to the LanguageTool service. The service is
  outside the program, so the call \<open>requests.post(url, data=data, timeout=10)\<close>
  is a parameter \<open>post\<close> of the model: it maps the form data to what the call
  does. The call either raises (a timeout, a connection error) or returns a
  response with a status code and a body; \<open>response.json()\<close> either raises or
  gives the decoded object, of which the program reads the key \<open>matches\<close>.

  A match is a dictionary. \<open>m_offset\<close> and \<open>m_length\<close> are \<open>None\<close> when the key is
  missing, so that \<open>match["offset"]\<close> raises \<open>KeyError\<close>; \<open>m_replacements\<close> is
  \<open>None\<close> when the key is missing, and each replacement holds its \<open>value\<close>
  key, \<open>None\<close> when missing.
\<close>

record lt_match =
  m_offset :: "int option"
  m_length :: "int option"
  m_replacements :: "pystr option list option"

datatype json_result =
    JsonRaises                      \<comment> \<open>\<open>response.json()\<close> raises\<close>
  | JsonObject "lt_match list option" \<comment> \<open>the decoded object's \<open>matches\<close>, \<open>None\<close> when absent\<close>

datatype post_result =
    PostRaises                      \<comment> \<open>\<open>requests.post\<close> raises\<close>
  | Response int json_result        \<comment> \<open>\<open>status_code\<close> and the outcome of \<open>json()\<close>\<close>

type_synonym form_data = "(string \<times> pystr) list"

text \<open>Python's slices \<open>s[:i]\<close> and \<open>s[i:]\<close>: a negative index counts from the end,
  and an index out of range is clamped.\<close>

definition slice_index :: "pystr \<Rightarrow> int \<Rightarrow> nat" where
  "slice_index s i =
     (let n = int (length s)
      in if i < 0 then nat (max 0 (n + i)) else nat (min i n))"

definition slice_to :: "pystr \<Rightarrow> int \<Rightarrow> pystr" where
  "slice_to s i = take (slice_index s i) s"

definition slice_from :: "pystr \<Rightarrow> int \<Rightarrow> pystr" where
  "slice_from s i = drop (slice_index s i) s"

text \<open>
  \<open>sorted(matches, key=lambda m: m["offset"], reverse=True)\<close>: the key is
  computed for every match, so a match without offset raises (\<open>None\<close>).
  The sort is stable, and \<open>reverse=True\<close> keeps matches of equal offset in
  their original order.
\<close>

definition sorted_by_offset_desc :: "lt_match list \<Rightarrow> lt_match list option" where
  "sorted_by_offset_desc matches =
     (if list_all (\<lambda>m. m_offset m \<noteq> None) matches
      then Some (rev (sort_key (\<lambda>m. the (m_offset m)) (rev matches)))
      else None)"

text \<open>
  The loop over the sorted matches, \<open>None\<close> when a statement of its body raises.
  \<^verbatim>\<open>
  replacements = match.get("replacements", [])
  if replacements:
      replacement = replacements[0].get("value", "")
      start, end = match["offset"], match["offset"] + match["length"]
      corrected = corrected[:start] + replacement + corrected[end:]
  \<close>
\<close>

fun apply_matches :: "lt_match list \<Rightarrow> pystr \<Rightarrow> pystr option" where
  "apply_matches [] corrected = Some corrected"
| "apply_matches (match # matches) corrected =
     (case get_default [] (m_replacements match) of
        [] \<Rightarrow> apply_matches matches corrected
      | r # _ \<Rightarrow>
          (let replacement = get_default (str '''') r
           in case m_offset match of
                None \<Rightarrow> None
              | Some start \<Rightarrow>
                  (case m_length match of
                     None \<Rightarrow> None
                   | Some len \<Rightarrow>
                       apply_matches matches
                         (slice_to corrected start @ replacement @ slice_from corrected (start + len)))))"

text \<open>The form data: the credentials are added only when both are set and non-empty.\<close>

definition truthy :: "pystr option \<Rightarrow> bool" where
  "truthy v = (case v of None \<Rightarrow> False | Some x \<Rightarrow> x \<noteq> [])"

definition request_data :: "pystr option \<Rightarrow> pystr option \<Rightarrow> pystr \<Rightarrow> form_data" where
  "request_data LT_USERNAME LT_API_KEY text =
     [(''text'', text), (''language'', str ''auto'')] @
     (if truthy LT_USERNAME \<and> truthy LT_API_KEY
      then [(''username'', get_default [] LT_USERNAME), (''apiKey'', get_default [] LT_API_KEY)]
      else [])"

text \<open>
  The body of the \<open>try\<close> statement after the call: every exception is caught
  and gives the original text.
\<close>

definition handle_response :: "pystr \<Rightarrow> post_result \<Rightarrow> pystr" where
  "handle_response text r =
     (case r of
        PostRaises \<Rightarrow> text
      | Response status_code body \<Rightarrow>
          if status_code \<noteq> 200 then text
          else (case body of
                  JsonRaises \<Rightarrow> text
                | JsonObject ms \<Rightarrow>
                    (case sorted_by_offset_desc (get_default [] ms) of
                       None \<Rightarrow> text
                     | Some sorted_matches \<Rightarrow>
                         (case apply_matches sorted_matches text of
                            None \<Rightarrow> text
                          | Some corrected \<Rightarrow> corrected))))"

text \<open>
  \<^verbatim>\<open>
  def correct_text(text: str) -> str:
      if not text or not isinstance(text, str) or not text.strip():
          return text
      url = "https://api.languagetoolplus.com/v2/check"
      data = {"text": text, "language": "auto"}
      if LT_USERNAME and LT_API_KEY:
          data["username"] = LT_USERNAME
          data["apiKey"] = LT_API_KEY
      try:
          response = requests.post(url, data=data, timeout=10)
          ...
      except Exception:
          return text
  \<close>
\<close>

definition correct_text ::
  "pystr option \<Rightarrow> pystr option \<Rightarrow> (form_data \<Rightarrow> post_result) \<Rightarrow> pystr \<Rightarrow> pystr" where
  "correct_text LT_USERNAME LT_API_KEY post text =
     (if text = [] \<or> strip text = [] then text
      else handle_response text (post (request_data LT_USERNAME LT_API_KEY text)))"

section \<open>Auxiliary notions\<close>

text \<open>A token is a non-empty string without whitespace.\<close>

definition token :: "pystr \<Rightarrow> bool" where
  "token w \<longleftrightarrow> w \<noteq> [] \<and> (\<forall>c\<in>set w. \<not> isspace c)"

text \<open>A line is within the budget, or it is a single token.\<close>

definition within :: "int \<Rightarrow> pystr \<Rightarrow> bool" where
  "within mw l \<longleftrightarrow> int (length l) * 5 \<le> mw \<or> split l = [l]"

text \<open>
  The history of the cursor is well formed: it starts at \<open>h\<close>, never increases,
  and ends at the current value of the cursor.
\<close>

definition cursor_inv :: "int \<Rightarrow> layout \<Rightarrow> bool" where
  "cursor_inv h s \<longleftrightarrow>
     ylog s \<noteq> [] \<and> hd (ylog s) = h \<and> sorted_wrt (\<ge>) (ylog s) \<and> last (ylog s) = cur_y s"

section \<open>Properties of \<open>split\<close> and \<open>join\<close>\<close>

lemma str_space: "str '' '' = [32]"
  by (simp add: str_def)

lemma str_empty: "str '''' = []"
  by (simp add: str_def)

lemma isspace_32: "isspace 32"
  by (simp add: isspace_def)

lemma split_from_tokens:
  "\<forall>c\<in>set cur. \<not> isspace c \<Longrightarrow> \<forall>w\<in>set (split_from cur s). token w"
proof (induction s arbitrary: cur)
  case Nil
  then show ?case by (simp add: token_def)
next
  case (Cons c cs)
  show ?case
  proof (cases "isspace c")
    case True
    have "\<forall>w\<in>set (split_from [] cs). token w"
      by (rule Cons.IH) simp
    then show ?thesis using True Cons.prems by (simp add: token_def)
  next
    case False
    have "\<forall>w\<in>set (split_from (cur @ [c]) cs). token w"
      by (rule Cons.IH) (use False Cons.prems in auto)
    then show ?thesis using False by simp
  qed
qed

lemma split_tokens: "\<forall>w\<in>set (split s). token w"
  unfolding split_def by (rule split_from_tokens) simp

lemma split_from_sep:
  "isspace c \<Longrightarrow> split_from cur (a @ c # b) = split_from cur a @ split_from [] b"
  by (induction a arbitrary: cur) auto

lemma split_from_nospace:
  "\<forall>c\<in>set w. \<not> isspace c \<Longrightarrow> split_from cur w = (if cur @ w = [] then [] else [cur @ w])"
  by (induction w arbitrary: cur) auto

lemma split_token: "token w \<Longrightarrow> split w = [w]"
  by (simp add: split_def token_def split_from_nospace)

lemma split_Nil: "split [] = []"
  by (simp add: split_def)

lemma split_snoc_token: "token w \<Longrightarrow> split (a @ 32 # w) = split a @ [w]"
  using split_from_sep [of 32 "[]" a w] split_token [of w]
  by (simp add: split_def isspace_32)

lemma join_merge:
  "join sep (xs @ (a @ sep @ b) # ys) = join sep (xs @ a # b # ys)"
proof (induction xs)
  case Nil
  show ?case by (cases ys) simp_all
next
  case (Cons x xs)
  then show ?case by (cases xs) simp_all
qed

section \<open>Properties of the wrapping loop\<close>

lemma loop_step_empty:
  "split_text_loop mw (word # ws) lines [] =
     (if int (length word) * 5 > mw then split_text_loop mw ws (lines @ [[]]) word
      else split_text_loop mw ws lines word)"
  by (simp add: Let_def str_empty)

lemma loop_step_nonempty:
  "cur \<noteq> [] \<Longrightarrow> split_text_loop mw (word # ws) lines cur =
     (if (int (length cur) + 1 + int (length word)) * 5 > mw
      then split_text_loop mw ws (lines @ [cur]) word
      else split_text_loop mw ws lines (cur @ 32 # word))"
  by (simp add: Let_def str_space)

lemma loop_tokens:
  "\<forall>w\<in>set ws. token w \<Longrightarrow>
   concat (map split (flush (split_text_loop mw ws lines cur)))
     = concat (map split lines) @ split cur @ ws"
proof (induction ws arbitrary: lines cur)
  case Nil
  then show ?case by (simp add: flush_def split_Nil)
next
  case (Cons word ws)
  from Cons.prems have tw: "token word" and rest: "\<forall>w\<in>set ws. token w" by simp_all
  note IH = Cons.IH [OF rest]
  show ?case
  proof (cases "cur = []")
    case True
    then show ?thesis using tw
      by (simp only: loop_step_empty IH split: if_splits) (simp add: split_Nil split_token)
  next
    case False
    then show ?thesis using tw
      by (simp only: loop_step_nonempty [OF False] IH split: if_splits)
         (simp add: split_token split_snoc_token)
  qed
qed

lemma loop_join:
  "cur \<noteq> [] \<Longrightarrow> \<forall>w\<in>set ws. w \<noteq> [] \<Longrightarrow>
   join [32] (flush (split_text_loop mw ws lines cur)) = join [32] (lines @ cur # ws)"
proof (induction ws arbitrary: lines cur)
  case Nil
  then show ?case by (simp add: flush_def)
next
  case (Cons word ws)
  from Cons.prems have w: "word \<noteq> []" and rest: "\<forall>w\<in>set ws. w \<noteq> []" by simp_all
  have a: "join [32] (flush (split_text_loop mw ws (lines @ [cur]) word))
             = join [32] ((lines @ [cur]) @ word # ws)"
    using w rest by (rule Cons.IH)
  have b: "join [32] (flush (split_text_loop mw ws lines (cur @ 32 # word)))
             = join [32] (lines @ (cur @ 32 # word) # ws)"
    using _ rest by (rule Cons.IH) simp
  have c: "join [32] (lines @ (cur @ 32 # word) # ws) = join [32] (lines @ cur # word # ws)"
    using join_merge [of "[32]" lines cur word ws] by simp
  show ?case
    unfolding loop_step_nonempty [OF Cons.prems(1)] using a b c by simp
qed

lemma loop_prefix:
  "split_text_loop mw ws (pre @ lines) cur =
     (pre @ fst (split_text_loop mw ws lines cur), snd (split_text_loop mw ws lines cur))"
proof (induction ws arbitrary: lines cur)
  case Nil
  show ?case by simp
next
  case (Cons word ws)
  show ?case
    using Cons.IH [of "lines @ [cur]" word] Cons.IH [of lines]
    by (simp add: Let_def)
qed

lemma flush_prefix:
  "flush (split_text_loop mw ws (pre @ lines) cur) = pre @ flush (split_text_loop mw ws lines cur)"
  by (subst loop_prefix) (simp add: flush_def split_beta)

lemma loop_nonempty_lines:
  "cur \<noteq> [] \<Longrightarrow> \<forall>w\<in>set ws. w \<noteq> [] \<Longrightarrow> [] \<notin> set lines \<Longrightarrow>
   [] \<notin> set (flush (split_text_loop mw ws lines cur))"
proof (induction ws arbitrary: lines cur)
  case Nil
  then show ?case by (simp add: flush_def)
next
  case (Cons word ws)
  from Cons.prems have w: "word \<noteq> []" and rest: "\<forall>w\<in>set ws. w \<noteq> []" by simp_all
  have a: "[] \<notin> set (flush (split_text_loop mw ws (lines @ [cur]) word))"
    using w rest by (rule Cons.IH) (use Cons.prems in simp)
  have b: "[] \<notin> set (flush (split_text_loop mw ws lines (cur @ 32 # word)))"
    using _ rest Cons.prems(3) by (rule Cons.IH) simp
  show ?case
    unfolding loop_step_nonempty [OF Cons.prems(1)] using a b by simp
qed

lemma loop_budget:
  "\<forall>w\<in>set ws. token w \<Longrightarrow> \<forall>l\<in>set lines. within mw l \<Longrightarrow> within mw cur \<Longrightarrow>
   \<forall>l\<in>set (flush (split_text_loop mw ws lines cur)). within mw l"
proof (induction ws arbitrary: lines cur)
  case Nil
  then show ?case by (simp add: flush_def)
next
  case (Cons word ws)
  from Cons.prems(1) have tw: "token word" and rest: "\<forall>w\<in>set ws. token w" by simp_all
  have okw: "within mw word" using tw by (simp add: within_def split_token)
  have ls: "\<forall>l\<in>set (lines @ [cur]). within mw l" using Cons.prems by simp
  have a: "\<forall>l\<in>set (flush (split_text_loop mw ws (lines @ [cur]) word)). within mw l"
    using rest ls okw by (rule Cons.IH)
  have b: "\<forall>l\<in>set (flush (split_text_loop mw ws lines t)). within mw l"
    if "within mw t" for t
    using rest Cons.prems(2) that by (rule Cons.IH)
  show ?case
  proof (cases "cur = []")
    case True
    show ?thesis unfolding True loop_step_empty using a b [OF okw] True by simp
  next
    case False
    have "within mw (cur @ 32 # word)" if "\<not> (int (length cur) + 1 + int (length word)) * 5 > mw"
      using that by (simp add: within_def)
    then show ?thesis unfolding loop_step_nonempty [OF False] using a b by auto
  qed
qed

lemma tokens_nonempty: "\<forall>w\<in>set ws. token w \<Longrightarrow> \<forall>w\<in>set ws. w \<noteq> []"
  by (simp add: token_def)

section \<open>The claims about the text wrapper\<close>

text \<open>
  Claim C1, as amended. For every string \<open>s\<close> and every width \<open>w\<close>, the tokens of
  the lines of \<open>split_text s w\<close>, read in order, are exactly the tokens of \<open>s\<close>:
  no token is dropped, duplicated or reordered. When \<open>s\<close> has no token, or its
  first token is within the width, joining the lines with a single space gives
  the tokens of \<open>s\<close> joined with single spaces, that is \<open>s\<close> with every run of
  whitespace replaced by one space and the whitespace at both ends removed.
\<close>

theorem split_text_keeps_tokens:
  "concat (map split (split_text s w)) = split s \<and>
   ((case split s of [] \<Rightarrow> True | t # ts \<Rightarrow> int (length t) * 5 \<le> w) \<longrightarrow>
      join (str '' '') (split_text s w) = join (str '' '') (split s))"
proof
  show "concat (map split (split_text s w)) = split s"
    using loop_tokens [where ws = "split s" and mw = w and lines = "[]" and cur = "[]"]
      split_tokens [of s]
    by (simp add: split_text_def split_Nil)
next
  show "(case split s of [] \<Rightarrow> True | t # ts \<Rightarrow> int (length t) * 5 \<le> w) \<longrightarrow>
      join (str '' '') (split_text s w) = join (str '' '') (split s)"
  proof (cases "split s")
    case Nil
    then show ?thesis by (simp add: split_text_def flush_def)
  next
    case (Cons t ts)
    have ne: "\<forall>w\<in>set (t # ts). w \<noteq> []"
      using tokens_nonempty [OF split_tokens, of s] Cons by simp
    then have t: "t \<noteq> []" and ts: "\<forall>w\<in>set ts. w \<noteq> []" by simp_all
    have "join [32] (flush (split_text_loop w ts [] t)) = join [32] ([] @ t # ts)"
      using t ts by (rule loop_join)
    then show ?thesis
      by (simp add: split_text_def Cons loop_step_empty str_space str_empty)
  qed
qed

text \<open>The amended claim at the text \<open>a  b c\<close> (two spaces after \<open>a\<close>) and width 15.\<close>

theorem split_text_keeps_tokens_witness:
  "(case split (str ''a  b c'') of [] \<Rightarrow> True | t # ts \<Rightarrow> int (length t) * 5 \<le> 15) \<and>
   split_text (str ''a  b c'') 15 = [str ''a b'', str ''c''] \<and>
   concat (map split (split_text (str ''a  b c'') 15)) = split (str ''a  b c'') \<and>
   join (str '' '') (split_text (str ''a  b c'') 15) = str ''a b c''"
  using split_text_keeps_tokens [of "str ''a  b c''" 15]
  by (simp add: split_def split_text_def flush_def str_def isspace_def)

text \<open>
  Claim C1 as stated fails: the two spaces of \<open>a  b\<close> are not reconstructed, the
  only line is \<open>a b\<close>.
\<close>

theorem split_text_exact_counterexample:
  "(0::int) < 500 \<and> join (str '' '') (split_text (str ''a  b'') 500) \<noteq> str ''a  b''"
  by (simp add: split_def split_text_def flush_def str_def isspace_def)

text \<open>
  Claim C6. For every string \<open>s\<close> and width \<open>w > 0\<close>, every line of
  \<open>split_text s w\<close>, except a line that is a single token whose own estimated
  width exceeds \<open>w\<close>, satisfies \<open>length line * 5 \<le> w\<close>.
\<close>

theorem split_text_budget:
  "0 < w \<Longrightarrow> l \<in> set (split_text s w) \<Longrightarrow>
   \<not> (split l = [l] \<and> int (length l) * 5 > w) \<Longrightarrow> int (length l) * 5 \<le> w"
proof -
  assume w: "0 < w" and l: "l \<in> set (split_text s w)"
    and single: "\<not> (split l = [l] \<and> int (length l) * 5 > w)"
  have "\<forall>l\<in>set (flush (split_text_loop w (split s) [] [])). within w l"
    using split_tokens by (rule loop_budget) (use w in \<open>simp_all add: within_def\<close>)
  then have "within w l" using l by (simp add: split_text_def)
  then show ?thesis using single by (auto simp: within_def)
qed

text \<open>Claim C6 at the text \<open>ab cd efghijkl\<close>, width 25 and the line \<open>ab cd\<close>.\<close>

theorem split_text_budget_witness:
  "(0::int) < 25 \<and> str ''ab cd'' \<in> set (split_text (str ''ab cd efghijkl'') 25) \<and>
   \<not> (split (str ''ab cd'') = [str ''ab cd''] \<and> int (length (str ''ab cd'')) * 5 > 25) \<and>
   int (length (str ''ab cd'')) * 5 \<le> 25"
proof -
  have a: "(0::int) < 25" by simp
  have b: "str ''ab cd'' \<in> set (split_text (str ''ab cd efghijkl'') 25)"
    by (simp add: split_def split_text_def flush_def str_def isspace_def)
  have c: "\<not> (split (str ''ab cd'') = [str ''ab cd''] \<and> int (length (str ''ab cd'')) * 5 > 25)"
    by (simp add: split_def str_def isspace_def)
  show ?thesis using a b c split_text_budget [OF a b c] by simp
qed

text \<open>
  Claim C10. When the first token \<open>t\<close> of the text satisfies
  \<open>length t * 5 > max_width\<close>, the first element of \<open>split_text text max_width\<close>
  is the empty string; the elements after it are non-empty lines that hold
  the tokens of the text, in order.
\<close>

theorem split_text_overlong_first:
  "split text = t # ts \<Longrightarrow> int (length t) * 5 > max_width \<Longrightarrow>
   \<exists>rest. split_text text max_width = [] # rest \<and> [] \<notin> set rest \<and>
          concat (map split rest) = t # ts"
proof -
  assume sp: "split text = t # ts" and long: "int (length t) * 5 > max_width"
  let ?rest = "flush (split_text_loop max_width ts [] t)"
  have tok: "\<forall>w\<in>set (t # ts). token w" using split_tokens [of "text"] sp by simp
  then have tt: "token t" and tts: "\<forall>w\<in>set ts. token w" by simp_all
  have ne: "t \<noteq> []" and nes: "\<forall>w\<in>set ts. w \<noteq> []"
    using tokens_nonempty [OF tok] by simp_all
  have "split_text text max_width = flush (split_text_loop max_width ts ([[]] @ []) t)"
    using long by (simp add: split_text_def sp loop_step_empty str_empty)
  then have 1: "split_text text max_width = [] # ?rest"
    by (simp only: flush_prefix) simp
  have 2: "[] \<notin> set ?rest"
    using ne nes by (rule loop_nonempty_lines) simp
  have 3: "concat (map split ?rest) = t # ts"
    using loop_tokens [OF tts, where mw = max_width and lines = "[]" and cur = t] tt
    by (simp add: split_token)
  show ?thesis using 1 2 3 by blast
qed

text \<open>Claim C10 at the text \<open>helloworld foo\<close> and width 25.\<close>

theorem split_text_overlong_first_witness:
  "split (str ''helloworld foo'') = [str ''helloworld'', str ''foo''] \<and>
   int (length (str ''helloworld'')) * 5 > 25 \<and>
   (\<exists>rest. split_text (str ''helloworld foo'') 25 = [] # rest \<and> [] \<notin> set rest \<and>
          concat (map split rest) = [str ''helloworld'', str ''foo''])"
proof -
  have a: "split (str ''helloworld foo'') = [str ''helloworld'', str ''foo'']"
    by (simp add: split_def str_def isspace_def)
  have b: "int (length (str ''helloworld'')) * 5 > 25"
    by (simp add: str_def)
  show ?thesis using a b split_text_overlong_first [OF a b] by blast
qed


section \<open>Properties of the layout steps\<close>

lemma canvas_emit: "canvas (emit op s) = canvas s @ [op]"
  and cur_y_emit: "cur_y (emit op s) = cur_y s"
  and ylog_emit: "ylog (emit op s) = ylog s"
  by (simp_all add: emit_def)

lemma canvas_advance: "canvas (advance d s) = canvas s"
  and cur_y_advance: "cur_y (advance d s) = cur_y s - d"
  and ylog_advance: "ylog (advance d s) = ylog s @ [cur_y s - d]"
  by (simp_all add: advance_def)

lemmas layout_simps = canvas_emit cur_y_emit ylog_emit canvas_advance cur_y_advance ylog_advance

lemma canvas_draw_lines: "set (canvas s) \<subseteq> set (canvas (draw_lines d ls s))"
proof (induction ls arbitrary: s)
  case Nil
  show ?case by simp
next
  case (Cons l ls)
  have "set (canvas (advance d (emit (DrawString 50 (cur_y s) l) s)))
          \<subseteq> set (canvas (draw_lines d ls (advance d (emit (DrawString 50 (cur_y s) l) s))))"
    by (rule Cons.IH)
  then show ?case by (auto simp: layout_simps)
qed

lemma cur_y_draw_lines: "cur_y (draw_lines d ls s) = cur_y s - d * int (length ls)"
  by (induction ls arbitrary: s) (simp_all add: layout_simps algebra_simps)

lemma draw_gradient_line_snd: "snd (draw_gradient_line gs c y width height) = height + 2"
  by (simp add: draw_gradient_line_def Let_def)

lemma cur_y_add_section_header: "cur_y (add_section_header gs title s) = cur_y s - 17"
  by (simp add: add_section_header_def draw_gradient_line_def Let_def layout_simps)

lemma canvas_add_section_header:
  "set (canvas s) \<subseteq> set (canvas (add_section_header gs title s))"
  by (auto simp: add_section_header_def draw_gradient_line_def Let_def layout_simps)

lemma lstrip_append_nonspace: "\<not> isspace c \<Longrightarrow> lstrip (a @ c # b) = lstrip a @ c # b"
  by (simp add: lstrip_def dropWhile_append)

lemma rstrip_snoc_nonspace: "\<not> isspace c \<Longrightarrow> rstrip (a @ [c]) = a @ [c]"
  by (simp add: rstrip_def)

lemma rstrip_snoc_space: "isspace c \<Longrightarrow> rstrip (a @ [c]) = rstrip a"
  by (simp add: rstrip_def)

lemma not_isspace_dash: "\<not> isspace 8211"
  by (simp add: isspace_def)

lemma rstrip_present: "rstrip (x @ 8211 # 32 # str ''Present'') = x @ 8211 # 32 # str ''Present''"
  by (simp add: rstrip_def str_def isspace_def)

lemma rstrip_dash: "rstrip (x @ [8211, 32]) = x @ [8211]"
  by (simp add: rstrip_def isspace_def)

lemma exp_dates_no_end:
  "exp ''endDate'' = None \<Longrightarrow>
   exp_dates exp = lstrip (get exp ''startDate'' (str '''') @ str '' '') @ [8211] @ str '' Present''"
proof -
  assume "exp ''endDate'' = None"
  then have e: "get exp ''endDate'' (str ''Present'') = str ''Present''"
    by (simp add: get_def)
  let ?sd = "get exp ''startDate'' (str '''')"
  have l: "lstrip (?sd @ en_dash_sep @ str ''Present'')
          = lstrip (?sd @ [32]) @ 8211 # 32 # str ''Present''"
    using lstrip_append_nonspace [OF not_isspace_dash, of "?sd @ [32]" "32 # str ''Present''"]
    by (simp add: en_dash_sep_def)
  have "exp_dates exp = lstrip (?sd @ [32]) @ 8211 # 32 # str ''Present''"
    unfolding exp_dates_def e strip_def l by (rule rstrip_present)
  then show ?thesis
    by (simp add: str_def)
qed

lemma edu_dates_no_end:
  "edu ''endDate'' = None \<Longrightarrow>
   edu_dates edu = lstrip (get edu ''startDate'' (str '''') @ str '' '') @ [8211]"
proof -
  assume "edu ''endDate'' = None"
  then have e: "get edu ''endDate'' (str '''') = []"
    by (simp add: get_def str_def)
  let ?sd = "get edu ''startDate'' (str '''')"
  have l: "lstrip (?sd @ en_dash_sep @ []) = lstrip (?sd @ [32]) @ [8211, 32]"
    using lstrip_append_nonspace [OF not_isspace_dash, of "?sd @ [32]" "[32]"]
    by (simp add: en_dash_sep_def)
  have "edu_dates edu = lstrip (?sd @ [32]) @ [8211]"
    unfolding edu_dates_def e strip_def l by (rule rstrip_dash)
  then show ?thesis
    by (simp add: str_def)
qed

lemma exp_dates_nonempty: "exp_dates exp \<noteq> []"
proof -
  let ?sd = "get exp ''startDate'' (str '''')"
  let ?ed = "get exp ''endDate'' (str ''Present'')"
  have l: "lstrip (?sd @ en_dash_sep @ ?ed) = lstrip (?sd @ [32]) @ 8211 # 32 # ?ed"
    using lstrip_append_nonspace [OF not_isspace_dash, of "?sd @ [32]" "32 # ?ed"]
    by (simp add: en_dash_sep_def)
  have "rev (lstrip (?sd @ [32]) @ 8211 # 32 # ?ed) = (rev ?ed @ [32]) @ 8211 # rev (lstrip (?sd @ [32]))"
    by simp
  then have "dropWhile isspace (rev (lstrip (?sd @ [32]) @ 8211 # 32 # ?ed)) \<noteq> []"
    by (simp only: dropWhile_append) (simp add: not_isspace_dash)
  then show ?thesis
    unfolding exp_dates_def strip_def l rstrip_def by simp
qed

lemma in_canvas_draw_lines:
  "x \<in> set (canvas s) \<Longrightarrow> x \<in> set (canvas (draw_lines d ls s))"
  using canvas_draw_lines [of s d ls] by blast

lemma draw_entry_title:
  "DrawString 50 (cur_y s) title \<in> set (canvas (draw_entry title dates desc s))"
  by (auto simp: draw_entry_def Let_def layout_simps intro!: in_canvas_draw_lines)

lemma draw_entry_dates:
  "dates \<noteq> [] \<Longrightarrow> DrawString 50 (cur_y s - 14) dates \<in> set (canvas (draw_entry title dates desc s))"
  by (auto simp: draw_entry_def Let_def layout_simps intro!: in_canvas_draw_lines)

lemma draw_entry_canvas:
  "x \<in> set (canvas s) \<Longrightarrow> x \<in> set (canvas (draw_entry title dates desc s))"
  by (auto simp: draw_entry_def Let_def layout_simps intro!: in_canvas_draw_lines)

lemma cur_y_draw_entry:
  "cur_y (draw_entry title dates desc s) =
     cur_y s - 14 - (if dates \<noteq> [] then 12 else 0)
       - (if desc \<noteq> [] then 12 * int (length (split_text desc 500)) else 0) - 8"
  by (simp add: draw_entry_def Let_def layout_simps cur_y_draw_lines)


lemma draw_exp_canvas: "x \<in> set (canvas s) \<Longrightarrow> x \<in> set (canvas (draw_exp exp s))"
  unfolding draw_exp_def by (rule draw_entry_canvas)

lemma draw_exps_canvas: "x \<in> set (canvas s) \<Longrightarrow> x \<in> set (canvas (draw_exps exps s))"
  by (induction exps arbitrary: s) (simp_all add: draw_exp_canvas)

lemma draw_edu_canvas: "x \<in> set (canvas s) \<Longrightarrow> x \<in> set (canvas (draw_edu edu s))"
  unfolding draw_edu_def by (rule draw_entry_canvas)

lemma draw_edus_canvas: "x \<in> set (canvas s) \<Longrightarrow> x \<in> set (canvas (draw_edus edus s))"
  by (induction edus arbitrary: s) (simp_all add: draw_edu_canvas)

lemma draw_exps_dates:
  "exp \<in> set exps \<Longrightarrow> exp_dates exp \<noteq> [] \<Longrightarrow>
   \<exists>y. DrawString 50 y (exp_dates exp) \<in> set (canvas (draw_exps exps s))"
proof (induction exps arbitrary: s)
  case Nil
  then show ?case by simp
next
  case (Cons e es)
  show ?case
  proof (cases "exp = e")
    case True
    have "DrawString 50 (cur_y s - 14) (exp_dates exp) \<in> set (canvas (draw_exp e s))"
      unfolding draw_exp_def True using Cons.prems(2) True by (intro draw_entry_dates) simp
    then have "DrawString 50 (cur_y s - 14) (exp_dates exp) \<in> set (canvas (draw_exps es (draw_exp e s)))"
      by (rule draw_exps_canvas)
    then show ?thesis by auto
  next
    case False
    then have "exp \<in> set es" using Cons.prems(1) by simp
    then have "\<exists>y. DrawString 50 y (exp_dates exp) \<in> set (canvas (draw_exps es (draw_exp e s)))"
      using Cons.prems(2) by (rule Cons.IH)
    then show ?thesis by simp
  qed
qed

lemma edu_dates_nonempty: "edu_dates edu \<noteq> []"
proof -
  let ?sd = "get edu ''startDate'' (str '''')"
  let ?ed = "get edu ''endDate'' (str '''')"
  have l: "lstrip (?sd @ en_dash_sep @ ?ed) = lstrip (?sd @ [32]) @ 8211 # 32 # ?ed"
    using lstrip_append_nonspace [OF not_isspace_dash, of "?sd @ [32]" "32 # ?ed"]
    by (simp add: en_dash_sep_def)
  have "rev (lstrip (?sd @ [32]) @ 8211 # 32 # ?ed) = (rev ?ed @ [32]) @ 8211 # rev (lstrip (?sd @ [32]))"
    by simp
  then have "dropWhile isspace (rev (lstrip (?sd @ [32]) @ 8211 # 32 # ?ed)) \<noteq> []"
    by (simp only: dropWhile_append) (simp add: not_isspace_dash)
  then show ?thesis
    unfolding edu_dates_def strip_def l rstrip_def by simp
qed

lemma draw_edus_dates:
  "edu \<in> set edus \<Longrightarrow> edu_dates edu \<noteq> [] \<Longrightarrow>
   \<exists>y. DrawString 50 y (edu_dates edu) \<in> set (canvas (draw_edus edus s))"
proof (induction edus arbitrary: s)
  case Nil
  then show ?case by simp
next
  case (Cons e es)
  show ?case
  proof (cases "edu = e")
    case True
    have "DrawString 50 (cur_y s - 14) (edu_dates edu) \<in> set (canvas (draw_edu e s))"
      unfolding draw_edu_def True using Cons.prems(2) True by (intro draw_entry_dates) simp
    then have "DrawString 50 (cur_y s - 14) (edu_dates edu) \<in> set (canvas (draw_edus es (draw_edu e s)))"
      by (rule draw_edus_canvas)
    then show ?thesis by auto
  next
    case False
    then have "edu \<in> set es" using Cons.prems(1) by simp
    then have "\<exists>y. DrawString 50 y (edu_dates edu) \<in> set (canvas (draw_edus es (draw_edu e s)))"
      using Cons.prems(2) by (rule Cons.IH)
    then show ?thesis by simp
  qed
qed


section \<open>The history of the cursor\<close>

lemma sorted_desc_last: "sorted_wrt (\<ge>) xs \<Longrightarrow> (y::int) \<in> set xs \<Longrightarrow> last xs \<le> y"
proof (induction xs)
  case Nil
  then show ?case by simp
next
  case (Cons x xs)
  then show ?case by (cases "xs = []") auto
qed

lemma cursor_inv_emit: "cursor_inv h s \<Longrightarrow> cursor_inv h (emit op s)"
  by (simp add: cursor_inv_def layout_simps)

lemma cursor_inv_advance: "0 \<le> d \<Longrightarrow> cursor_inv h s \<Longrightarrow> cursor_inv h (advance d s)"
proof -
  assume d: "0 \<le> d" and inv: "cursor_inv h s"
  have "\<forall>y\<in>set (ylog s). cur_y s - d \<le> y"
  proof
    fix y assume "y \<in> set (ylog s)"
    then have "last (ylog s) \<le> y" using inv by (intro sorted_desc_last) (simp_all add: cursor_inv_def)
    then show "cur_y s - d \<le> y" using inv d by (simp add: cursor_inv_def)
  qed
  then show ?thesis using inv
    by (simp add: cursor_inv_def layout_simps sorted_wrt_append)
qed

lemma cursor_inv_draw_lines: "0 \<le> d \<Longrightarrow> cursor_inv h s \<Longrightarrow> cursor_inv h (draw_lines d ls s)"
  by (induction ls arbitrary: s) (simp_all add: cursor_inv_emit cursor_inv_advance)

lemma cursor_inv_canvas: "cursor_inv h s \<Longrightarrow> cursor_inv h (s\<lparr>canvas := c\<rparr>)"
  by (simp add: cursor_inv_def)

lemma cursor_inv_add_section_header:
  "cursor_inv h s \<Longrightarrow> cursor_inv h (add_section_header gs title s)"
  by (simp add: add_section_header_def draw_gradient_line_def Let_def
      cursor_inv_emit cursor_inv_advance cursor_inv_canvas)

lemma cursor_inv_draw_entry:
  "cursor_inv h s \<Longrightarrow> cursor_inv h (draw_entry title dates desc s)"
  by (simp add: draw_entry_def Let_def cursor_inv_emit cursor_inv_advance cursor_inv_draw_lines)

lemma cursor_inv_draw_exps: "cursor_inv h s \<Longrightarrow> cursor_inv h (draw_exps exps s)"
  by (induction exps arbitrary: s) (simp_all add: draw_exp_def cursor_inv_draw_entry)

lemma cursor_inv_draw_edus: "cursor_inv h s \<Longrightarrow> cursor_inv h (draw_edus edus s)"
  by (induction edus arbitrary: s) (simp_all add: draw_edu_def cursor_inv_draw_entry)

lemma cursor_inv_draw_name: "cursor_inv h s \<Longrightarrow> cursor_inv h (draw_name resume s)"
  by (simp add: draw_name_def Let_def cursor_inv_emit cursor_inv_advance)

lemma cursor_inv_draw_contacts: "cursor_inv h s \<Longrightarrow> cursor_inv h (draw_contacts resume s)"
  by (simp add: draw_contacts_def Let_def cursor_inv_emit cursor_inv_advance cursor_inv_draw_lines)

lemma cursor_inv_draw_summary: "cursor_inv h s \<Longrightarrow> cursor_inv h (draw_summary gs resume s)"
  by (simp add: draw_summary_def Let_def cursor_inv_emit cursor_inv_advance cursor_inv_draw_lines
      cursor_inv_add_section_header)

lemma cursor_inv_draw_skills: "cursor_inv h s \<Longrightarrow> cursor_inv h (draw_skills gs resume s)"
  by (simp add: draw_skills_def Let_def cursor_inv_emit cursor_inv_advance cursor_inv_draw_lines
      cursor_inv_add_section_header)

lemma cursor_inv_draw_experience: "cursor_inv h s \<Longrightarrow> cursor_inv h (draw_experience gs resume s)"
  by (simp add: draw_experience_def Let_def cursor_inv_advance cursor_inv_draw_exps
      cursor_inv_add_section_header)

lemma cursor_inv_draw_education: "cursor_inv h s \<Longrightarrow> cursor_inv h (draw_education gs resume s)"
  by (simp add: draw_education_def Let_def cursor_inv_advance cursor_inv_draw_edus
      cursor_inv_add_section_header)

lemma cursor_inv_initial: "cursor_inv (letter_height - 40) initial_layout"
  by (simp add: cursor_inv_def initial_layout_def)

lemma cursor_inv_generate_pdf: "cursor_inv (letter_height - 40) (generate_pdf gs resume)"
  unfolding generate_pdf_def Let_def
  by (intro cursor_inv_emit cursor_inv_draw_education cursor_inv_draw_experience
      cursor_inv_draw_skills cursor_inv_draw_summary cursor_inv_draw_contacts
      cursor_inv_draw_name cursor_inv_initial)


section \<open>The claims about the divider and the section header\<close>

text \<open>
  Claim C5. \<open>draw_gradient_line\<close> returns \<open>height + 2\<close> for every \<open>y\<close>, \<open>width\<close> and
  \<open>height\<close>, with gradients supported and without; with \<open>y = 100\<close>,
  \<open>width = 500\<close> and \<open>height = 3\<close> it returns 5 in both modes.
\<close>

theorem draw_gradient_line_space:
  "snd (draw_gradient_line GRADIENT_SUPPORTED c y width height) = height + 2 \<and>
   snd (draw_gradient_line True c 100 500 3) = 5 \<and>
   snd (draw_gradient_line False c 100 500 3) = 5"
  by (simp add: draw_gradient_line_def Let_def)

text \<open>
  Claim C4. For every title, \<open>add_section_header\<close> lowers the cursor by the
  heading gap 4, plus what \<open>draw_gradient_line\<close> returns, plus the gap 8 before
  the content: 17 in all, whatever the title is.
\<close>

theorem add_section_header_cost:
  "cur_y s - cur_y (add_section_header GRADIENT_SUPPORTED title s)
     = 4 + snd (draw_gradient_line GRADIENT_SUPPORTED c y 500 3) + 8 \<and>
   cur_y s - cur_y (add_section_header GRADIENT_SUPPORTED title s) = 17"
  by (simp add: add_section_header_def draw_gradient_line_def Let_def layout_simps)


section \<open>The claims about the entries\<close>

text \<open>
  Claim C7, as amended. For every experience entry the title line drawn is
  the template \<open>{position} at {company}\<close>, each missing field replaced by the
  empty string, with the whitespace at both ends removed by \<open>strip\<close>; an entry
  with neither field draws the line \<open>at\<close>.
\<close>

theorem exp_title_line:
  "exp_title exp = strip (get exp ''position'' (str '''') @ str '' at '' @ get exp ''company'' (str '''')) \<and>
   DrawString 50 (cur_y s) (exp_title exp) \<in> set (canvas (draw_exp exp s)) \<and>
   (exp ''position'' = None \<and> exp ''company'' = None \<longrightarrow> exp_title exp = str ''at'')"
proof (intro conjI impI)
  show "exp_title exp = strip (get exp ''position'' (str '''') @ str '' at '' @ get exp ''company'' (str ''''))"
    by (simp add: exp_title_def)
  show "DrawString 50 (cur_y s) (exp_title exp) \<in> set (canvas (draw_exp exp s))"
    unfolding draw_exp_def by (rule draw_entry_title)
  assume "exp ''position'' = None \<and> exp ''company'' = None"
  then show "exp_title exp = str ''at''"
    by (simp add: exp_title_def get_def strip_def lstrip_def rstrip_def str_def isspace_def)
qed

text \<open>The amended claim at the entry without any field.\<close>

theorem exp_title_line_witness:
  "(Map.empty :: pydict) ''position'' = None \<and> (Map.empty :: pydict) ''company'' = None \<and>
   exp_title Map.empty = str ''at'' \<and>
   DrawString 50 (cur_y initial_layout) (str ''at'') \<in> set (canvas (draw_exp Map.empty initial_layout))"
proof -
  have a: "(Map.empty :: pydict) ''position'' = None \<and> (Map.empty :: pydict) ''company'' = None"
    by simp
  note t = exp_title_line [of Map.empty initial_layout]
  from t a have b: "exp_title Map.empty = str ''at''"
    by blast
  from t have c: "DrawString 50 (cur_y initial_layout) (exp_title Map.empty)
      \<in> set (canvas (draw_exp Map.empty initial_layout))"
    by blast
  show ?thesis using a b c by simp
qed

text \<open>
  Claim C7 as stated fails at the entry without any field: its title line is
  \<open>at\<close>, without the spaces around it.
\<close>

theorem exp_title_spaces_counterexample:
  "(Map.empty :: pydict) ''position'' = None \<and> (Map.empty :: pydict) ''company'' = None \<and>
   exp_title Map.empty \<noteq> str '' at '' \<and>
   canvas (draw_exp Map.empty initial_layout) =
     [SetFont ''Helvetica-Bold'' 12, SetFillColor (Color 20 20 20), DrawString 50 752 (str ''at''),
      SetFont ''Helvetica-Oblique'' 8, DrawString 50 738 ([8211] @ str '' Present'')]"
  by (simp add: exp_title_def exp_dates_def en_dash_sep_def get_def strip_def lstrip_def rstrip_def
      str_def isspace_def draw_exp_def draw_entry_def Let_def layout_simps initial_layout_def
      letter_height_def body_color_def)

text \<open>
  Claim C2 fails on the code. The resume below has one experience entry, with
  a position and neither date, and yet the date line is drawn under the title,
  with the text of an en dash, a space and \<open>Present\<close>, and the cursor goes from
  681 to 669 for it: the date line always holds the dash, so the test
  \<open>if dates\<close> never fails.
\<close>

theorem exp_without_dates_draws_date_line:
  "([''position'' \<mapsto> str ''Engineer''] :: pydict) ''startDate'' = None \<and>
   ([''position'' \<mapsto> str ''Engineer''] :: pydict) ''endDate'' = None \<and>
   exp_dates [''position'' \<mapsto> str ''Engineer''] = [8211] @ str '' Present'' \<and>
   canvas (generate_pdf False
      \<lparr>r_personal = Some [''name'' \<mapsto> str ''Ada''], r_summary = None, r_skills = None,
       r_experience = Some [[''position'' \<mapsto> str ''Engineer'']], r_education = None\<rparr>) =
     [SetFont ''Helvetica-Bold'' 22, SetFillColor (Color 0 0 0), DrawString 50 752 (str ''Ada''),
      SetFont ''Helvetica'' 10, SetFillColor (Color 35 35 35),
      SetFont ''Helvetica-Bold'' 14, SetFillColor (Color 0 0 0),
      DrawString 50 712 (str ''Experience''),
      SetFillColor (Color 30 80 90), Rect 50 705 500 3,
      SetFont ''Helvetica-Bold'' 12, SetFillColor (Color 20 20 20),
      DrawString 50 695 (str ''Engineer at''),
      SetFont ''Helvetica-Oblique'' 8, DrawString 50 681 ([8211] @ str '' Present''),
      Save] \<and>
   ylog (generate_pdf False
      \<lparr>r_personal = Some [''name'' \<mapsto> str ''Ada''], r_summary = None, r_skills = None,
       r_experience = Some [[''position'' \<mapsto> str ''Engineer'']], r_education = None\<rparr>) =
     [752, 724, 712, 708, 703, 695, 681, 669, 661, 649]"
  by (simp add: generate_pdf_def draw_name_def draw_contacts_def contact_lines_def has_def
      draw_summary_def draw_skills_def draw_experience_def draw_education_def
      add_section_header_def draw_gradient_line_def
      exp_title_def exp_dates_def en_dash_sep_def get_def get_default_def
      strip_def lstrip_def rstrip_def str_def isspace_def
      draw_exp_def draw_entry_def Let_def layout_simps initial_layout_def
      letter_height_def heading_color_def body_color_def contact_color_def)

text \<open>
  Claim C3. In every experience entry without \<open>endDate\<close> the date line is the
  start date, the dash and \<open>Present\<close>; in every education entry without
  \<open>endDate\<close> the date line is the start date and the dash, with the empty string
  in the place of the end date (and the space before it stripped). Both date
  lines are drawn, for every such entry of the lists.
\<close>

theorem end_date_default:
  "(\<forall>exp\<in>set exps. exp ''endDate'' = None \<longrightarrow>
      exp_dates exp = lstrip (get exp ''startDate'' (str '''') @ str '' '') @ [8211] @ str '' Present'' \<and>
      (\<exists>y. DrawString 50 y (exp_dates exp) \<in> set (canvas (draw_exps exps s)))) \<and>
   (\<forall>edu\<in>set edus. edu ''endDate'' = None \<longrightarrow>
      edu_dates edu = lstrip (get edu ''startDate'' (str '''') @ str '' '') @ [8211] @ str '''' \<and>
      (\<exists>y. DrawString 50 y (edu_dates edu) \<in> set (canvas (draw_edus edus s'))))"
proof (intro conjI ballI impI)
  fix exp assume "exp \<in> set exps" and "exp ''endDate'' = None"
  then show "exp_dates exp = lstrip (get exp ''startDate'' (str '''') @ str '' '') @ [8211] @ str '' Present''"
    by (simp only: exp_dates_no_end)
next
  fix exp assume "exp \<in> set exps" and "exp ''endDate'' = None"
  then show "\<exists>y. DrawString 50 y (exp_dates exp) \<in> set (canvas (draw_exps exps s))"
    using exp_dates_nonempty by (intro draw_exps_dates)
next
  fix edu assume "edu \<in> set edus" and "edu ''endDate'' = None"
  then show "edu_dates edu = lstrip (get edu ''startDate'' (str '''') @ str '' '') @ [8211] @ str ''''"
    by (simp add: edu_dates_no_end str_empty)
next
  fix edu assume "edu \<in> set edus" and "edu ''endDate'' = None"
  then show "\<exists>y. DrawString 50 y (edu_dates edu) \<in> set (canvas (draw_edus edus s'))"
    using edu_dates_nonempty by (intro draw_edus_dates)
qed

text \<open>Claim C3 at one experience entry and one education entry that have a start date only.\<close>

theorem end_date_default_witness:
  "([''position'' \<mapsto> str ''Engineer'', ''startDate'' \<mapsto> str ''2020''] :: pydict) ''endDate'' = None \<and>
   ([''degree'' \<mapsto> str ''BSc'', ''startDate'' \<mapsto> str ''2016''] :: pydict) ''endDate'' = None \<and>
   exp_dates [''position'' \<mapsto> str ''Engineer'', ''startDate'' \<mapsto> str ''2020'']
     = str ''2020 '' @ [8211] @ str '' Present'' \<and>
   edu_dates [''degree'' \<mapsto> str ''BSc'', ''startDate'' \<mapsto> str ''2016'']
     = str ''2016 '' @ [8211]"
  using end_date_default [of "[[''position'' \<mapsto> str ''Engineer'', ''startDate'' \<mapsto> str ''2020'']]"
      initial_layout "[[''degree'' \<mapsto> str ''BSc'', ''startDate'' \<mapsto> str ''2016'']]" initial_layout]
  by (simp add: get_def lstrip_def str_def isspace_def)


section \<open>The claim about the cursor\<close>

text \<open>
  Claim C8. During one call of \<open>generate_pdf\<close> the cursor starts at the page
  height minus 40 and never increases: every value assigned to it is at most
  every value it had before, up to the value it has when the canvas is saved.
  The canvas operations and \<open>draw_gradient_line\<close> have no access to the cursor:
  they take and return the canvas and numbers only.
\<close>

theorem cursor_never_increases:
  "hd (ylog (generate_pdf GRADIENT_SUPPORTED resume)) = letter_height - 40 \<and>
   sorted_wrt (\<ge>) (ylog (generate_pdf GRADIENT_SUPPORTED resume)) \<and>
   last (ylog (generate_pdf GRADIENT_SUPPORTED resume)) = cur_y (generate_pdf GRADIENT_SUPPORTED resume)"
  using cursor_inv_generate_pdf [of GRADIENT_SUPPORTED resume] by (simp add: cursor_inv_def)


section \<open>The claim about grammar correction\<close>

text \<open>
  Claim C9. \<open>correct_text\<close> returns the text unchanged when the request raises,
  when the status is not 200, when decoding the body raises, and when the
  processing of the matches raises. When \<open>LT_USERNAME\<close> or \<open>LT_API_KEY\<close> is
  unset (or empty), the request is made all the same, with the fields \<open>text\<close>
  and \<open>language\<close> only, and its response decides the result.
\<close>

theorem correct_text_falls_back:
  "(post (request_data u k s) = PostRaises \<longrightarrow> correct_text u k post s = s) \<and>
   (\<forall>status body. post (request_data u k s) = Response status body \<and> status \<noteq> 200 \<longrightarrow>
      correct_text u k post s = s) \<and>
   (post (request_data u k s) = Response 200 JsonRaises \<longrightarrow> correct_text u k post s = s) \<and>
   (\<forall>ms. post (request_data u k s) = Response 200 (JsonObject ms) \<and>
      (sorted_by_offset_desc (get_default [] ms) = None \<or>
       (\<exists>sm. sorted_by_offset_desc (get_default [] ms) = Some sm \<and> apply_matches sm s = None)) \<longrightarrow>
      correct_text u k post s = s) \<and>
   (\<not> (truthy u \<and> truthy k) \<longrightarrow>
      request_data u k s = [(''text'', s), (''language'', str ''auto'')] \<and>
      (s \<noteq> [] \<and> strip s \<noteq> [] \<longrightarrow>
         correct_text u k post s =
           handle_response s (post [(''text'', s), (''language'', str ''auto'')])))"
proof (intro conjI allI impI)
  assume "post (request_data u k s) = PostRaises"
  then show "correct_text u k post s = s"
    by (simp add: correct_text_def handle_response_def)
next
  fix status body
  assume "post (request_data u k s) = Response status body \<and> status \<noteq> 200"
  then show "correct_text u k post s = s"
    by (simp add: correct_text_def handle_response_def)
next
  assume "post (request_data u k s) = Response 200 JsonRaises"
  then show "correct_text u k post s = s"
    by (simp add: correct_text_def handle_response_def)
next
  fix ms
  assume "post (request_data u k s) = Response 200 (JsonObject ms) \<and>
      (sorted_by_offset_desc (get_default [] ms) = None \<or>
       (\<exists>sm. sorted_by_offset_desc (get_default [] ms) = Some sm \<and> apply_matches sm s = None))"
  then show "correct_text u k post s = s"
    by (auto simp: correct_text_def handle_response_def)
next
  assume "\<not> (truthy u \<and> truthy k)"
  then show "request_data u k s = [(''text'', s), (''language'', str ''auto'')]"
    by (simp add: request_data_def)
next
  assume c: "\<not> (truthy u \<and> truthy k)" and "s \<noteq> [] \<and> strip s \<noteq> []"
  then show "correct_text u k post s =
           handle_response s (post [(''text'', s), (''language'', str ''auto'')])"
    by (auto simp: correct_text_def request_data_def)
qed

text \<open>
  Claim C9 at the text \<open>teh kat\<close>: the four failures, and a request without
  credentials whose response corrects the text.
\<close>

theorem correct_text_falls_back_witness:
  "correct_text None None (\<lambda>d. PostRaises) (str ''teh kat'') = str ''teh kat'' \<and>
   correct_text None None (\<lambda>d. Response 503 JsonRaises) (str ''teh kat'') = str ''teh kat'' \<and>
   correct_text None None (\<lambda>d. Response 200 JsonRaises) (str ''teh kat'') = str ''teh kat'' \<and>
   sorted_by_offset_desc
     [\<lparr>m_offset = None, m_length = Some 3, m_replacements = Some [Some (str ''the'')]\<rparr>] = None \<and>
   correct_text None None
     (\<lambda>d. Response 200 (JsonObject (Some
        [\<lparr>m_offset = None, m_length = Some 3, m_replacements = Some [Some (str ''the'')]\<rparr>])))
     (str ''teh kat'') = str ''teh kat'' \<and>
   \<not> (truthy None \<and> truthy (Some (str ''key''))) \<and>
   request_data None (Some (str ''key'')) (str ''teh kat'')
     = [(''text'', str ''teh kat''), (''language'', str ''auto'')] \<and>
   correct_text None (Some (str ''key''))
     (\<lambda>d. if d = [(''text'', str ''teh kat''), (''language'', str ''auto'')]
          then Response 200 (JsonObject (Some
            [\<lparr>m_offset = Some 0, m_length = Some 3, m_replacements = Some [Some (str ''the'')]\<rparr>]))
          else PostRaises)
     (str ''teh kat'') = str ''the kat''"
proof -
  let ?s = "str ''teh kat''"
  let ?bad = "[\<lparr>m_offset = None, m_length = Some 3, m_replacements = Some [Some (str ''the'')]\<rparr>]"
  let ?good = "[\<lparr>m_offset = Some 0, m_length = Some 3, m_replacements = Some [Some (str ''the'')]\<rparr>]"
  let ?svc = "\<lambda>d. if d = [(''text'', ?s), (''language'', str ''auto'')]
          then Response 200 (JsonObject (Some ?good)) else PostRaises"
  have 1: "correct_text None None (\<lambda>d. PostRaises) ?s = ?s"
    using correct_text_falls_back [of "\<lambda>d. PostRaises" None None ?s] by simp
  have 2: "correct_text None None (\<lambda>d. Response 503 JsonRaises) ?s = ?s"
    using correct_text_falls_back [of "\<lambda>d. Response 503 JsonRaises" None None ?s] by simp
  have 3: "correct_text None None (\<lambda>d. Response 200 JsonRaises) ?s = ?s"
    using correct_text_falls_back [of "\<lambda>d. Response 200 JsonRaises" None None ?s] by simp
  have 4: "sorted_by_offset_desc ?bad = None"
    by (simp add: sorted_by_offset_desc_def)
  have 5: "correct_text None None (\<lambda>d. Response 200 (JsonObject (Some ?bad))) ?s = ?s"
    using correct_text_falls_back [of "\<lambda>d. Response 200 (JsonObject (Some ?bad))" None None ?s] 4
    by (simp add: get_default_def)
  have 6: "\<not> (truthy None \<and> truthy (Some (str ''key'')))"
    by (simp add: truthy_def)
  have ne: "?s \<noteq> [] \<and> strip ?s \<noteq> []"
    by (simp add: strip_def lstrip_def rstrip_def str_def isspace_def)
  have 7: "request_data None (Some (str ''key'')) ?s = [(''text'', ?s), (''language'', str ''auto'')]"
    using correct_text_falls_back [of ?svc None "Some (str ''key'')" ?s] 6 by blast
  have "correct_text None (Some (str ''key'')) ?svc ?s
          = handle_response ?s (?svc [(''text'', ?s), (''language'', str ''auto'')])"
    using correct_text_falls_back [of ?svc None "Some (str ''key'')" ?s] 6 ne by blast
  also have "\<dots> = str ''the kat''"
    by (simp add: handle_response_def sorted_by_offset_desc_def get_default_def
        slice_to_def slice_from_def slice_index_def str_def)
  finally have 8: "correct_text None (Some (str ''key'')) ?svc ?s = str ''the kat''" .
  show ?thesis using 1 2 3 4 5 6 7 8 by blast
qed

end
